theory Spec2Isabelle
  imports Main "HOL-Library.Word" "HOL-Library.Stream"
begin

unbundle bit_operations_syntax

section \<open>Data model\<close>

text \<open>
  The module \<^verbatim>\<open>algosdk/template.py\<close> patches parameter values into precompiled byte
  programs. Bytes are 8-bit words, Python integers are unbounded (\<open>int\<close>), and the
  dynamically typed entries of the \<^verbatim>\<open>values\<close> list are a datatype of the Python values
  the templates pass: an int, a str, a bytes object, or None.
\<close>

type_synonym byte = "8 word"

datatype pyval = IntV int | StrV string | BytesV "byte list" | NoneV

text \<open>
  An entry of \<^verbatim>\<open>values_types\<close> is either the type object \<^verbatim>\<open>int\<close> or a string
  (\<^verbatim>\<open>"address"\<close>, \<^verbatim>\<open>"base64"\<close>, or anything else).
\<close>

datatype pytype = IntType | StrType string

text \<open>
  Exceptions are values. \<open>UnknownType\<close> is \<^verbatim>\<open>Exception("Unkown Type")\<close>;
  \<open>ExternalError\<close> is whatever a collaborator outside this module raises.
\<close>

datatype error =
    AssertionError
  | TypeError
  | ValueError
  | UnknownType
  | NotDivisibleError
  | ZeroDivisionError
  | ExternalError string

text \<open>
  The functions of other modules that the code calls are parameters of the model:
  \<^verbatim>\<open>encoding.decode_address\<close>, \<^verbatim>\<open>base64.b64decode\<close>, \<^verbatim>\<open>base64.b64encode\<close>
  (followed by \<^verbatim>\<open>.decode()\<close>), \<^verbatim>\<open>encoding.checksum\<close>, \<^verbatim>\<open>encoding.encode_address\<close>,
  and the constants \<^verbatim>\<open>constants.logic_prefix\<close> and \<^verbatim>\<open>constants.lease_length\<close>.
\<close>

record collaborators =
  decode_address :: "pyval \<Rightarrow> error + byte list"
  b64decode :: "pyval \<Rightarrow> error + byte list"
  b64encode :: "byte list \<Rightarrow> string"
  checksum :: "byte list \<Rightarrow> byte list"
  encode_address :: "byte list \<Rightarrow> string"
  logic_prefix :: "byte list"
  lease_length :: nat

section \<open>The patch engine\<close>

subsection \<open>\<^verbatim>\<open>put_uvarint\<close>\<close>

text \<open>
  \<^verbatim>\<open>
  def put_uvarint(buf, x):
      i = 0
      while x >= 0x80:
          buf.append((x & 0xFF) | 0x80)
          x >>= 7
          i += 1
      buf.append(x & 0xFF)
      return i + 1
  \<close>
  The buffer is a Python list of ints that the function extends in place; the model
  returns the extended buffer together with the returned count. The loop ends because
  \<open>x\<close> is at least 128 when it is shifted.
\<close>

function put_uvarint_loop :: "int list \<Rightarrow> int \<Rightarrow> nat \<Rightarrow> int list \<times> int \<times> nat" where
  "put_uvarint_loop buf x i =
     (if x \<ge> 0x80
      then put_uvarint_loop (buf @ [(x AND 0xFF) OR 0x80]) (drop_bit 7 x) (i + 1)
      else (buf, x, i))"
  by pat_completeness auto
termination
  by (relation "measure (\<lambda>(buf, x, i). nat x)") (simp_all add: drop_bit_eq_div)

declare put_uvarint_loop.simps [simp del]

definition put_uvarint :: "int list \<Rightarrow> int \<Rightarrow> int list \<times> nat" where
  "put_uvarint buf x =
     (case put_uvarint_loop buf x 0 of (buf', x', i) \<Rightarrow> (buf' @ [x' AND 0xFF], i + 1))"

text \<open>The ints one call appends, as a function of the value alone.\<close>

definition uvarint_ints :: "int \<Rightarrow> int list" where
  "uvarint_ints x = fst (put_uvarint [] x)"

text \<open>The bytes of that encoding.\<close>

definition uvarint_bytes :: "int \<Rightarrow> byte list" where
  "uvarint_bytes x = map word_of_int (uvarint_ints x)"

text \<open>\<^verbatim>\<open>bytes(buf)\<close> raises ValueError unless every element is in \<open>range(256)\<close>.\<close>

definition py_bytes :: "int list \<Rightarrow> error + byte list" where
  "py_bytes buf =
     (if list_all (\<lambda>e. 0 \<le> e \<and> e < 256) buf then Inr (map word_of_int buf)
      else Inl ValueError)"

text \<open>
  The reference decoder of the little-endian base-128 scheme, which the module itself
  does not contain: each byte carries seven value bits, least significant group first,
  and the high bit is set on every byte but the last. It returns the value and the
  bytes that follow the encoding.
\<close>

fun uvarint_decode :: "byte list \<Rightarrow> (int \<times> byte list) option" where
  "uvarint_decode [] = None"
| "uvarint_decode (b # bs) =
     (if b < 0x80 then Some (uint b, bs)
      else (case uvarint_decode bs of
              None \<Rightarrow> None
            | Some (v, rest) \<Rightarrow> Some (uint (b AND 0x7F) + 128 * v, rest)))"

subsection \<open>\<^verbatim>\<open>inject\<close>\<close>

text \<open>
  Python slicing: a negative bound counts from the end and is clamped at 0; a bound
  beyond the end is clamped at the length (\<open>take\<close> and \<open>drop\<close> do that).
\<close>

definition slice_bound :: "'a list \<Rightarrow> int \<Rightarrow> nat" where
  "slice_bound arr n = (if n < 0 then nat (int (length arr) + n) else nat n)"

text \<open>
  \<^verbatim>\<open>
  def replace(arr, new_val, offset, place_holder_length):
      return arr[:offset] + new_val + arr[offset+place_holder_length:]
  \<close>
\<close>

definition replace :: "byte list \<Rightarrow> byte list \<Rightarrow> int \<Rightarrow> int \<Rightarrow> byte list" where
  "replace arr new_val offset place_holder_length =
     take (slice_bound arr offset) arr @ new_val
       @ drop (slice_bound arr (offset + place_holder_length)) arr"

text \<open>
  The four arguments of \<^verbatim>\<open>inject\<close> as the caller sees them. \<^verbatim>\<open>offsets\<close> is a list
  object that the function updates in place, so the model returns the arguments as they
  are when the call ends (field \<open>vals\<close> is the parameter \<^verbatim>\<open>values\<close>).
\<close>

record inject_args =
  orig :: "byte list"
  offsets :: "int list"
  vals :: "pyval list"
  values_types :: "pytype list"

text \<open>
  \<^verbatim>\<open>
  if dec_len != 0:
      for o in range(len(offsets)):
          offsets[o] += dec_len - 1
  \<close>
\<close>

definition update_offsets :: "nat \<Rightarrow> int list \<Rightarrow> int list" where
  "update_offsets dec_len offs =
     (if dec_len \<noteq> 0 then map (\<lambda>off. off + (int dec_len - 1)) offs else offs)"

text \<open>
  One iteration of the \<^verbatim>\<open>for i in range(len(offsets))\<close> loop, on the local \<^verbatim>\<open>res\<close>
  and the arguments. Every raise of the body comes before its assignments.
  \<^verbatim>\<open>put_uvarint(buf, val)\<close> raises TypeError at \<^verbatim>\<open>x >= 0x80\<close> when \<^verbatim>\<open>val\<close> is a
  str, a bytes object or None.
\<close>

definition inject_body ::
  "collaborators \<Rightarrow> nat \<Rightarrow> byte list \<times> inject_args \<Rightarrow> error + byte list \<times> inject_args" where
  "inject_body X i st =
     (case st of (res, a) \<Rightarrow>
        let val = vals a ! i; val_type = values_types a ! i in
        if val_type = IntType then
          (case val of
             IntV x \<Rightarrow>
               (case put_uvarint [] x of (buf, dec_len) \<Rightarrow>
                  (case py_bytes buf of
                     Inl e \<Rightarrow> Inl e
                   | Inr v \<Rightarrow>
                       Inr (replace res v (offsets a ! i) 1,
                            a\<lparr>offsets := update_offsets dec_len (offsets a)\<rparr>)))
           | _ \<Rightarrow> Inl TypeError)
        else if val_type = StrType ''address'' then
          (case decode_address X val of
             Inl e \<Rightarrow> Inl e
           | Inr v \<Rightarrow>
               Inr (replace res v (offsets a ! i) 32,
                    a\<lparr>offsets := update_offsets 0 (offsets a)\<rparr>))
        else if val_type = StrType ''base64'' then
          (case b64decode X val of
             Inl e \<Rightarrow> Inl e
           | Inr v \<Rightarrow>
               (case put_uvarint [] (int (length v)) of (buf, n) \<Rightarrow>
                  (case py_bytes buf of
                     Inl e \<Rightarrow> Inl e
                   | Inr pre \<Rightarrow>
                       Inr (replace res (pre @ v) (offsets a ! i) 2,
                            a\<lparr>offsets := update_offsets (n + length v) (offsets a)\<rparr>))))
        else Inl UnknownType)"

text \<open>
  The loop over the indices. An exception leaves the loop with the arguments as they
  are at that moment.
\<close>

fun inject_loop ::
  "collaborators \<Rightarrow> nat list \<Rightarrow> byte list \<times> inject_args \<Rightarrow> (error + byte list) \<times> inject_args" where
  "inject_loop X [] st = (Inr (fst st), snd st)"
| "inject_loop X (i # rest) st =
     (case inject_body X i st of
        Inl e \<Rightarrow> (Inl e, snd st)
      | Inr st' \<Rightarrow> inject_loop X rest st')"

text \<open>
  \<^verbatim>\<open>
  def inject(orig, offsets, values, values_types):
      assert len(offsets) == len(values) == len(values_types)
      res = orig[:]
      for i in range(len(offsets)): ...
      return res
  \<close>
  The result is the outcome (the returned bytes or the exception) and the arguments
  after the call.
\<close>

definition inject :: "collaborators \<Rightarrow> inject_args \<Rightarrow> (error + byte list) \<times> inject_args" where
  "inject X a =
     (if length (offsets a) = length (vals a) \<and> length (vals a) = length (values_types a)
      then inject_loop X [0..<length (offsets a)] (orig a, a)
      else (Inl AssertionError, a))"

subsection \<open>The placeholders of a call\<close>

text \<open>
  The vocabulary of the properties below. A placeholder is an entry of \<^verbatim>\<open>offsets\<close>
  with the entries of \<^verbatim>\<open>values_types\<close> and \<^verbatim>\<open>values\<close> at the same index.
\<close>

definition placeholders :: "inject_args \<Rightarrow> (int \<times> pytype \<times> pyval) list" where
  "placeholders a = zip (offsets a) (zip (values_types a) (vals a))"

text \<open>
  The reserved width of a placeholder: the \<^verbatim>\<open>place_holder_length\<close> that the branch of
  its kind passes to \<^verbatim>\<open>replace\<close>.
\<close>

definition reserved_width :: "pytype \<Rightarrow> nat" where
  "reserved_width ty =
     (if ty = IntType then 1
      else if ty = StrType ''address'' then 32
      else if ty = StrType ''base64'' then 2
      else 0)"

text \<open>
  What the branch of a kind computes from a value: the bytes it writes and its
  \<^verbatim>\<open>dec_len\<close>, or the exception it raises.
\<close>

definition encode_placeholder ::
  "collaborators \<Rightarrow> pytype \<Rightarrow> pyval \<Rightarrow> error + byte list \<times> nat" where
  "encode_placeholder X ty v =
     (if ty = IntType then
        (case v of
           IntV x \<Rightarrow> Inr (uvarint_bytes x, length (uvarint_bytes x))
         | _ \<Rightarrow> Inl TypeError)
      else if ty = StrType ''address'' then
        (case decode_address X v of Inl e \<Rightarrow> Inl e | Inr bs \<Rightarrow> Inr (bs, 0))
      else if ty = StrType ''base64'' then
        (case b64decode X v of
           Inl e \<Rightarrow> Inl e
         | Inr blob \<Rightarrow>
             Inr (uvarint_bytes (int (length blob)) @ blob,
                  length (uvarint_bytes (int (length blob))) + length blob))
      else Inl UnknownType)"

definition encoded :: "collaborators \<Rightarrow> pytype \<Rightarrow> pyval \<Rightarrow> byte list" where
  "encoded X ty v = (case encode_placeholder X ty v of Inl e \<Rightarrow> [] | Inr (bs, d) \<Rightarrow> bs)"

text \<open>The amount that the code adds to every offset after a substitution.\<close>

definition shift_of :: "nat \<Rightarrow> int" where
  "shift_of dec_len = (if dec_len \<noteq> 0 then int dec_len - 1 else 0)"

definition placeholder_shift :: "collaborators \<Rightarrow> int \<times> pytype \<times> pyval \<Rightarrow> int" where
  "placeholder_shift X p =
     (case p of (off, ty, v) \<Rightarrow>
        (case encode_placeholder X ty v of Inl e \<Rightarrow> 0 | Inr (bs, d) \<Rightarrow> shift_of d))"

definition accumulated_shift :: "collaborators \<Rightarrow> (int \<times> pytype \<times> pyval) list \<Rightarrow> int" where
  "accumulated_shift X ps = sum_list (map (placeholder_shift X) ps)"

text \<open>
  The loop of \<^verbatim>\<open>inject\<close> as a recursion over the placeholders, with the sum of the
  shifts so far as an accumulator: the entry \<open>i\<close> of the offsets list holds its original
  value plus that sum when the loop reaches it. It returns the outcome and the final sum.
\<close>

fun patch_all ::
  "collaborators \<Rightarrow> (int \<times> pytype \<times> pyval) list \<Rightarrow> int \<Rightarrow> byte list \<Rightarrow> (error + byte list) \<times> int" where
  "patch_all X [] s res = (Inr res, s)"
| "patch_all X ((off, ty, v) # ps) s res =
     (case encode_placeholder X ty v of
        Inl e \<Rightarrow> (Inl e, s)
      | Inr (bs, dec_len) \<Rightarrow>
          patch_all X ps (s + shift_of dec_len) (replace res bs (off + s) (int (reserved_width ty))))"

text \<open>
  The length delta of a placeholder as the specification states it: the encoded length
  minus 1 for an int, 0 for an address, and the length of the varint of the blob's length
  plus the blob's length minus 2 for a base64 blob.
\<close>

definition length_delta :: "collaborators \<Rightarrow> pytype \<Rightarrow> pyval \<Rightarrow> int" where
  "length_delta X ty v =
     (if ty = IntType then
        (case v of IntV x \<Rightarrow> int (length (uvarint_bytes x)) - 1 | _ \<Rightarrow> 0)
      else if ty = StrType ''address'' then 0
      else if ty = StrType ''base64'' then
        (case b64decode X v of
           Inl e \<Rightarrow> 0
         | Inr blob \<Rightarrow> int (length (uvarint_bytes (int (length blob)))) + int (length blob) - 2)
      else 0)"

definition sum_deltas :: "collaborators \<Rightarrow> (int \<times> pytype \<times> pyval) list \<Rightarrow> int" where
  "sum_deltas X ps = sum_list (map (\<lambda>(off, ty, v). length_delta X ty v) ps)"

text \<open>
  A placeholder is well formed for a program when its reserved region lies inside the
  program, its kind is one of the three, and its value is one the kind can encode: an
  unsigned integer, an address that decodes to 32 bytes, a blob that decodes.
\<close>

definition well_formed :: "collaborators \<Rightarrow> byte list \<Rightarrow> int \<times> pytype \<times> pyval \<Rightarrow> bool" where
  "well_formed X prog p =
     (case p of (off, ty, v) \<Rightarrow>
        0 \<le> off \<and> off + int (reserved_width ty) \<le> int (length prog) \<and>
        (if ty = IntType then (case v of IntV x \<Rightarrow> 0 \<le> x | _ \<Rightarrow> False)
         else if ty = StrType ''address'' then
           (case decode_address X v of Inl e \<Rightarrow> False | Inr bs \<Rightarrow> length bs = 32)
         else if ty = StrType ''base64'' then
           (case b64decode X v of Inl e \<Rightarrow> False | Inr blob \<Rightarrow> True)
         else False))"

definition not_base64 :: "int \<times> pytype \<times> pyval \<Rightarrow> bool" where
  "not_base64 p = (fst (snd p) \<noteq> StrType ''base64'')"

text \<open>The reserved region of \<open>p\<close> ends before that of \<open>q\<close> starts.\<close>

definition before :: "int \<times> pytype \<times> pyval \<Rightarrow> int \<times> pytype \<times> pyval \<Rightarrow> bool" where
  "before p q = (fst p + int (reserved_width (fst (snd p))) \<le> fst q)"

text \<open>
  The program in which each region (offset, width, new bytes), taken in ascending order
  from the cursor \<open>c\<close>, is replaced by its new bytes, and every byte outside the regions
  is kept in place between them.
\<close>

fun splice :: "byte list \<Rightarrow> int \<Rightarrow> (int \<times> int \<times> byte list) list \<Rightarrow> byte list" where
  "splice prog c [] = drop (nat c) prog"
| "splice prog c ((off, w, bs) # rs) =
     take (nat (off - c)) (drop (nat c) prog) @ bs @ splice prog (off + w) rs"

definition regions ::
  "collaborators \<Rightarrow> (int \<times> pytype \<times> pyval) list \<Rightarrow> (int \<times> int \<times> byte list) list" where
  "regions X ps = map (\<lambda>(off, ty, v). (off, int (reserved_width ty), encoded X ty v)) ps"

text \<open>
  Reading a patched region back: an int region is one varint; an address region is its 32
  raw bytes; a base64 region is a varint length followed by that many bytes. The logical
  value of a placeholder is the integer itself, or the raw bytes that its text stands for.
\<close>

definition decode_region :: "pytype \<Rightarrow> byte list \<Rightarrow> pyval option" where
  "decode_region ty bs =
     (if ty = IntType then
        (case uvarint_decode bs of
           Some (x, rest) \<Rightarrow> (if rest = [] then Some (IntV x) else None)
         | None \<Rightarrow> None)
      else if ty = StrType ''address'' then
        (if length bs = 32 then Some (BytesV bs) else None)
      else if ty = StrType ''base64'' then
        (case uvarint_decode bs of
           Some (n, blob) \<Rightarrow> (if n = int (length blob) then Some (BytesV blob) else None)
         | None \<Rightarrow> None)
      else None)"

definition logical_value :: "collaborators \<Rightarrow> pytype \<Rightarrow> pyval \<Rightarrow> pyval" where
  "logical_value X ty v =
     (if ty = IntType then v
      else if ty = StrType ''address'' then
        (case decode_address X v of Inl e \<Rightarrow> NoneV | Inr bs \<Rightarrow> BytesV bs)
      else if ty = StrType ''base64'' then
        (case b64decode X v of Inl e \<Rightarrow> NoneV | Inr blob \<Rightarrow> BytesV blob)
      else NoneV)"

definition decodes_back :: "collaborators \<Rightarrow> int \<times> pytype \<times> pyval \<Rightarrow> bool" where
  "decodes_back X p =
     (case p of (off, ty, v) \<Rightarrow>
        decode_region ty (encoded X ty v) = Some (logical_value X ty v))"

section \<open>The templates\<close>

text \<open>
  The state outside the instances that the module touches: the generator behind
  \<^verbatim>\<open>random.randint(0, 255)\<close>, as the stream of the bytes its next calls return. Methods
  take the instance and the world and return them with their result.
\<close>

record world =
  random_bytes :: "byte stream"

text \<open>The instance fields of the five classes, as \<^verbatim>\<open>__init__\<close> stores them.\<close>

record split =
  owner :: string
  receiver_1 :: string
  receiver_2 :: string
  ratn :: int
  ratd :: int
  expiry_round :: int
  min_pay :: int
  max_fee :: int

record htlc =
  owner :: string
  receiver :: string
  hash_function :: string
  hash_image :: string
  expiry_round :: int
  max_fee :: int

record dynamic_fee =
  lease_value :: pyval
  last_valid :: pyval
  amount :: int
  first_valid :: int
  close_remainder_address :: pyval
  receiver :: string

record periodic_payment =
  lease_value :: pyval
  receiver :: string
  amount :: int
  withdrawing_window :: int
  period :: int
  fee :: int
  timeout :: int

record limit_order =
  owner :: string
  ratn :: int
  ratd :: int
  expiry_round :: int
  min_trade :: int
  max_fee :: int

datatype template =
    Split split
  | HTLC htlc
  | DynamicFee dynamic_fee
  | PeriodicPayment periodic_payment
  | LimitOrder limit_order

text \<open>
  \<^verbatim>\<open>DynamicFee.__init__\<close> draws the lease when the instance is made. It stores
  \<^verbatim>\<open>last_valid\<close> before it replaces a missing one by \<^verbatim>\<open>first_valid + 1000\<close>, so the
  field keeps None; a missing \<^verbatim>\<open>close_remainder_address\<close> becomes \<^verbatim>\<open>bytes(32)\<close>.
  The parameters carry a prime, the fields have the plain names.
\<close>

definition DynamicFee_init ::
  "collaborators \<Rightarrow> string \<Rightarrow> int \<Rightarrow> int \<Rightarrow> int option \<Rightarrow> string option \<Rightarrow> world
     \<Rightarrow> dynamic_fee \<times> world" where
  "DynamicFee_init X receiver' amount' first_valid' last_valid' close_remainder_address' w =
     (\<lparr>dynamic_fee.lease_value =
          StrV (b64encode X (stake (lease_length X) (random_bytes w))),
       last_valid = (case last_valid' of None \<Rightarrow> NoneV | Some n \<Rightarrow> IntV n),
       dynamic_fee.amount = amount',
       first_valid = first_valid',
       close_remainder_address =
         (case close_remainder_address' of
            None \<Rightarrow> BytesV (replicate 32 0)
          | Some s \<Rightarrow> StrV s),
       dynamic_fee.receiver = receiver'\<rparr>,
      w\<lparr>random_bytes := sdrop (lease_length X) (random_bytes w)\<rparr>)"

definition PeriodicPayment_init ::
  "collaborators \<Rightarrow> string \<Rightarrow> int \<Rightarrow> int \<Rightarrow> int \<Rightarrow> int \<Rightarrow> int \<Rightarrow> world
     \<Rightarrow> periodic_payment \<times> world" where
  "PeriodicPayment_init X receiver' amount' withdrawing_window' period' fee' timeout' w =
     (\<lparr>periodic_payment.lease_value = BytesV (stake (lease_length X) (random_bytes w)),
       periodic_payment.receiver = receiver',
       periodic_payment.amount = amount',
       withdrawing_window = withdrawing_window',
       period = period',
       fee = fee',
       timeout = timeout'\<rparr>,
      w\<lparr>random_bytes := sdrop (lease_length X) (random_bytes w)\<rparr>)"

text \<open>
  The lines every \<^verbatim>\<open>get_program\<close> shares:
  \<^verbatim>\<open>
  orig = base64.b64decode(orig)
  ...
  return base64.b64encode(inject(orig, offsets, values, types)).decode()
  \<close>
  The lists are built anew by each call, so the list that \<^verbatim>\<open>inject\<close> updates is
  dropped when the call returns.
\<close>

definition patched_program ::
  "collaborators \<Rightarrow> string \<Rightarrow> int list \<Rightarrow> pyval list \<Rightarrow> pytype list \<Rightarrow> error + byte list" where
  "patched_program X text offs vs tys =
     (case b64decode X (StrV text) of
        Inl e \<Rightarrow> Inl e
      | Inr program \<Rightarrow>
          fst (inject X \<lparr>orig = program, offsets = offs, vals = vs, values_types = tys\<rparr>))"

definition encode_program :: "collaborators \<Rightarrow> error + byte list \<Rightarrow> error + pyval" where
  "encode_program X r = (case r of Inl e \<Rightarrow> Inl e | Inr res \<Rightarrow> Inr (StrV (b64encode X res)))"

definition Split_get_program :: "collaborators \<Rightarrow> split \<Rightarrow> error + pyval" where
  "Split_get_program X s =
     encode_program X (patched_program X
       (''ASAIAQUCAAYHCAkmAyDYHIR7TIW5eM/WAZcXdEDqv7BD+baMN6i2/A5JatG'' @
        ''bNCDKsaoZHPQ3Zg8zZB/BZ1oDgt77LGo5np3rbto3/gloTyB40AS2H3I72Y'' @
        ''CbDk4hKpm7J7NnFy2Xrt39TJG0ORFg+zEQIhIxASMMEDIEJBJAABkxCSgSM'' @
        ''QcyAxIQMQglEhAxAiEEDRAiQAAuMwAAMwEAEjEJMgMSEDMABykSEDMBByoS'' @
        ''EDMACCEFCzMBCCEGCxIQMwAIIQcPEBA='')
       [4, 7, 8, 9, 10, 14, 47, 80]
       [IntV (split.max_fee s), IntV (split.expiry_round s), IntV (split.ratn s),
        IntV (split.ratd s), IntV (split.min_pay s), StrV (split.owner s),
        StrV (split.receiver_1 s), StrV (split.receiver_2 s)]
       [IntType, IntType, IntType, IntType, IntType,
        StrType ''address'', StrType ''address'', StrType ''address''])"

definition HTLC_get_program :: "collaborators \<Rightarrow> htlc \<Rightarrow> error + pyval" where
  "HTLC_get_program X h =
     (let hash_inject =
            (if htlc.hash_function h = ''sha256'' then 1
             else if htlc.hash_function h = ''keccak256'' then 2
             else 0)
      in encode_program X (patched_program X
           (''ASAEBQEABiYDIP68oLsUSlpOp7Q4pGgayA5soQW8tgf8VlMlyVaV9qITAQ'' @
            ''Yg5pqWHm8tX3rIZgeSZVK+mCNe0zNjyoiRi7nJOKkVtvkxASIOMRAjEhAx'' @
            ''BzIDEhAxCCQSEDEJKBItASkSEDEJKhIxAiUNEBEQ'')
           [3, 6, 10, 42, 44, 101]
           [IntV (htlc.max_fee h), IntV (htlc.expiry_round h), StrV (htlc.receiver h),
            StrV (htlc.hash_image h), StrV (htlc.owner h), IntV hash_inject]
           [IntType, IntType, StrType ''address'', StrType ''base64'', StrType ''address'',
            IntType]))"

definition DynamicFee_get_program :: "collaborators \<Rightarrow> dynamic_fee \<Rightarrow> error + pyval" where
  "DynamicFee_get_program X d =
     encode_program X (patched_program X
       (''ASAFAgEFBgcmAyD+vKC7FEpaTqe0OKRoGsgObKEFvLYH/FZTJclWlfaiEy'' @
        ''DmmpYeby1feshmB5JlUr6YI17TM2PKiJGLuck4qRW2+QEGMgQiEjMAECMS'' @
        ''EDMABzEAEhAzAAgxARIQMRYjEhAxECMSEDEHKBIQMQkpEhAxCCQSEDECJR'' @
        ''IQMQQhBBIQMQYqEhA='')
       [5, 6, 7, 11, 44, 76]
       [IntV (dynamic_fee.amount d), IntV (first_valid d), last_valid d,
        StrV (dynamic_fee.receiver d), close_remainder_address d, dynamic_fee.lease_value d]
       [IntType, IntType, IntType, StrType ''address'', StrType ''address'',
        StrType ''base64''])"

definition PeriodicPayment_get_program ::
  "collaborators \<Rightarrow> periodic_payment \<Rightarrow> error + pyval" where
  "PeriodicPayment_get_program X p =
     encode_program X (patched_program X
       (''ASAHAQUGAAcICSYCIH+DsWV/8fxTuS3BgUih1l38LUsfo9Z3KErd0gASbZ'' @
        ''BpILO3BCfT4PJw36+yT68lZyyjP9vs0NLqLfcc6S9Ol/5iMRAiEjEBIw4Q'' @
        ''MQIkGCUSEDEEIQQxAggSEDEGKBIQMQkyAxIxBykSEDEIIQUSEDEJKRIxBz'' @
        ''IDEhAxAiEGDRAxCCUSEBEQ'')
       [4, 5, 7, 8, 9, 12, 45]
       [IntV (fee p), IntV (period p), IntV (withdrawing_window p),
        IntV (periodic_payment.amount p), IntV (timeout p), periodic_payment.lease_value p,
        StrV (periodic_payment.receiver p)]
       [IntType, IntType, IntType, IntType, IntType, StrType ''base64'',
        StrType ''address''])"

text \<open>\<^verbatim>\<open>LimitOrder.get_program\<close> has the body \<^verbatim>\<open>pass\<close>: it returns None.\<close>

definition LimitOrder_get_program :: "collaborators \<Rightarrow> limit_order \<Rightarrow> error + pyval" where
  "LimitOrder_get_program X l = Inr NoneV"

text \<open>
  \<^verbatim>\<open>get_program\<close> on an instance of any of the classes. It reads the fields, assigns
  none, and makes no call to the random generator.
\<close>

definition get_program ::
  "collaborators \<Rightarrow> template \<Rightarrow> world \<Rightarrow> (error + pyval) \<times> template \<times> world" where
  "get_program X t w =
     ((case t of
         Split s \<Rightarrow> Split_get_program X s
       | HTLC h \<Rightarrow> HTLC_get_program X h
       | DynamicFee d \<Rightarrow> DynamicFee_get_program X d
       | PeriodicPayment p \<Rightarrow> PeriodicPayment_get_program X p
       | LimitOrder l \<Rightarrow> LimitOrder_get_program X l),
      t, w)"


text \<open>
  The amounts of \<^verbatim>\<open>Split.get_send_funds_transaction\<close>:
  \<^verbatim>\<open>
  amt_1 = 0
  amt_2 = 0
  gcd = math.gcd(self.ratn, self.ratd)
  ratn = self.ratn // gcd
  ratd = self.ratd // gcd
  if amount % ratd == 0:
      amt_1 = amount // ratd * ratn
      amt_2 = amount - amt_2
  elif precise:
      raise error.NotDivisibleError
  else:
      amt_1 = round(amount / ratd * ratn)
      amt_2 = amount - amt_1
  \<close>
  The result is the pair of amounts that the method then passes to the two payment
  transactions, for \<^verbatim>\<open>receiver_1\<close> and \<^verbatim>\<open>receiver_2\<close>; building, grouping and signing the
  transactions belongs to the transaction module. \<^verbatim>\<open>//\<close> and \<^verbatim>\<open>%\<close> raise
  ZeroDivisionError on a zero divisor and round towards minus infinity, as \<open>div\<close> and
  \<open>mod\<close> do. \<^verbatim>\<open>round(amount / ratd * ratn)\<close> is computed in binary floating point: the
  parameter \<open>round_share\<close> stands for its result, and \<open>float_round_share\<close> below is the
  function that Python computes. The parameter
  \<^verbatim>\<open>amount\<close> is \<open>amount'\<close>, since \<open>amount\<close> is a field of other classes.
\<close>

definition get_send_funds_transaction ::
  "(int \<Rightarrow> int \<Rightarrow> int \<Rightarrow> int) \<Rightarrow> split \<Rightarrow> int \<Rightarrow> bool \<Rightarrow> error + int \<times> int" where
  "get_send_funds_transaction round_share s amount' precise =
     (let amt_1 = (0::int); amt_2 = (0::int); g = gcd (split.ratn s) (split.ratd s) in
      if g = 0 then Inl ZeroDivisionError
      else
        let rn = split.ratn s div g; rd = split.ratd s div g in
        if rd = 0 then Inl ZeroDivisionError
        else if amount' mod rd = 0 then Inr (amount' div rd * rn, amount' - amt_2)
        else if precise then Inl NotDivisibleError
        else Inr (round_share amount' rd rn, amount' - round_share amount' rd rn))"

subsection \<open>Binary floating point\<close>

text \<open>
  Python's \<^verbatim>\<open>round(amount / ratd * ratn)\<close> on ints, in binary64 arithmetic. A float
  is a pair \<open>(m, e)\<close> that stands for \<open>m * 2 ^ e\<close>, with a mantissa of at most 53 bits.
  \<open>binary64_of_ratio p q\<close> is the float nearest to \<open>p / q\<close> for \<open>q > 0\<close>, ties to the
  even mantissa: what the true division of two ints returns, what the conversion of an int
  returns (\<open>q = 1\<close>), and what the product of two floats is rounded to. \<^verbatim>\<open>round\<close> gives
  the nearest int, ties to even. The exponent range is not modelled: the definitions stand
  for the Python values as long as no intermediate result leaves the range of binary64
  (beyond it Python raises OverflowError), which holds for all arguments below
  \<open>2 ^ 511\<close> in absolute value.
\<close>

function bit_length :: "int \<Rightarrow> nat" where
  "bit_length n = (if n \<le> 0 then 0 else Suc (bit_length (n div 2)))"
  by pat_completeness auto
termination
  by (relation "measure nat") simp_all

declare bit_length.simps [simp del]

definition round_half_even :: "int \<Rightarrow> int \<Rightarrow> int" where
  "round_half_even p q =
     (let f = p div q; r = p mod q in
      if 2 * r < q then f
      else if q < 2 * r then f + 1
      else if even f then f else f + 1)"

type_synonym binary64 = "int \<times> int"

definition binary64_of_ratio :: "int \<Rightarrow> int \<Rightarrow> binary64" where
  "binary64_of_ratio p q =
     (if p = 0 then (0, 0)
      else
        let a = \<bar>p\<bar>;
            k = int (bit_length a) - int (bit_length q);
            lg = (if (if 0 \<le> k then q * 2 ^ nat k \<le> a else q \<le> a * 2 ^ nat (- k))
                  then k else k - 1);
            e = lg - 52;
            m = (if 0 \<le> e then round_half_even a (q * 2 ^ nat e)
                 else round_half_even (a * 2 ^ nat (- e)) q)
        in (sgn p * m, e))"

definition binary64_div :: "int \<Rightarrow> int \<Rightarrow> binary64" where
  "binary64_div p q = (if q < 0 then binary64_of_ratio (- p) (- q) else binary64_of_ratio p q)"

definition binary64_mul :: "binary64 \<Rightarrow> binary64 \<Rightarrow> binary64" where
  "binary64_mul x y =
     (case x of (m1, e1) \<Rightarrow> case y of (m2, e2) \<Rightarrow>
        let e = e1 + e2 in
        if 0 \<le> e then binary64_of_ratio (m1 * m2 * 2 ^ nat e) 1
        else binary64_of_ratio (m1 * m2) (2 ^ nat (- e)))"

definition py_round :: "binary64 \<Rightarrow> int" where
  "py_round x =
     (case x of (m, e) \<Rightarrow>
        if 0 \<le> e then m * 2 ^ nat e else round_half_even m (2 ^ nat (- e)))"

definition float_round_share :: "int \<Rightarrow> int \<Rightarrow> int \<Rightarrow> int" where
  "float_round_share a d n = py_round (binary64_mul (binary64_div a d) (binary64_of_ratio n 1))"

section \<open>Sample collaborators\<close>

text \<open>
  Concrete collaborators for the runs on concrete inputs. \<open>sample_b64decode\<close> and
  \<open>sample_b64encode\<close> are the base64 of RFC 4648 on canonical text (alphabet characters
  and correct padding), where they agree with Python's; \<open>sample_decode_address\<close> knows one
  address, the zero address, which stands for 32 zero bytes. The checksum and the address
  encoder are stand-ins (the first 32 bytes, and base64 again); the logic prefix is the
  ASCII text \<^verbatim>\<open>Program\<close>.
\<close>

definition b64_chars :: string where
  "b64_chars = ''ABCDEFGHIJKLMNOPQRSTUVWXYZabcdefghijklmnopqrstuvwxyz0123456789+/''"

fun position :: "char \<Rightarrow> string \<Rightarrow> nat option" where
  "position c [] = None"
| "position c (x # xs) = (if c = x then Some 0 else map_option Suc (position c xs))"

fun sextets_bytes :: "nat list \<Rightarrow> byte list" where
  "sextets_bytes (a # b # c # d # rest) =
     [of_nat (a * 4 + b div 16), of_nat ((b mod 16) * 16 + c div 4), of_nat ((c mod 4) * 64 + d)]
       @ sextets_bytes rest"
| "sextets_bytes [a, b, c] = [of_nat (a * 4 + b div 16), of_nat ((b mod 16) * 16 + c div 4)]"
| "sextets_bytes [a, b] = [of_nat (a * 4 + b div 16)]"
| "sextets_bytes _ = []"

fun bytes_sextets :: "nat list \<Rightarrow> nat list" where
  "bytes_sextets (a # b # c # rest) =
     [a div 4, (a mod 4) * 16 + b div 16, (b mod 16) * 4 + c div 64, c mod 64] @ bytes_sextets rest"
| "bytes_sextets [a, b] = [a div 4, (a mod 4) * 16 + b div 16, (b mod 16) * 4]"
| "bytes_sextets [a] = [a div 4, (a mod 4) * 16]"
| "bytes_sextets [] = []"

definition sample_b64decode_text :: "string \<Rightarrow> error + byte list" where
  "sample_b64decode_text s =
     (let body = takeWhile (\<lambda>c. c \<noteq> CHR ''='') s; pad = drop (length body) s in
      if length s mod 4 = 0 \<and> length pad \<le> 2 \<and> list_all (\<lambda>c. c = CHR ''='') pad then
        (case those (map (\<lambda>c. position c b64_chars) body) of
           None \<Rightarrow> Inl (ExternalError ''binascii.Error'')
         | Some vs \<Rightarrow> Inr (sextets_bytes vs))
      else Inl (ExternalError ''binascii.Error''))"

definition sample_b64decode :: "pyval \<Rightarrow> error + byte list" where
  "sample_b64decode v =
     (case v of
        StrV s \<Rightarrow> sample_b64decode_text s
      | BytesV bs \<Rightarrow> sample_b64decode_text (map (\<lambda>b. char_of (unat b)) bs)
      | _ \<Rightarrow> Inl TypeError)"

definition sample_b64encode :: "byte list \<Rightarrow> string" where
  "sample_b64encode bs =
     map (\<lambda>v. b64_chars ! v) (bytes_sextets (map unat bs))
       @ replicate ((3 - length bs mod 3) mod 3) (CHR ''='')"

definition zero_address :: string where
  "zero_address = ''AAAAAAAAAAAAAAAAAAAAAAAAAAAAAAAAAAAAAAAAAAAAAAAAAAAAY5HFKQ''"

definition sample_decode_address :: "pyval \<Rightarrow> error + byte list" where
  "sample_decode_address v =
     (if v = StrV zero_address then Inr (replicate 32 0)
      else Inl (ExternalError ''WrongChecksumError''))"

definition sample_collaborators :: collaborators where
  "sample_collaborators =
     \<lparr>decode_address = sample_decode_address,
      b64decode = sample_b64decode,
      b64encode = sample_b64encode,
      checksum = take 32,
      encode_address = sample_b64encode,
      logic_prefix = [0x50, 0x72, 0x6F, 0x67, 0x72, 0x61, 0x6D],
      lease_length = 32\<rparr>"

definition sample_split :: split where
  "sample_split =
     \<lparr>split.owner = zero_address, receiver_1 = zero_address, receiver_2 = zero_address,
      split.ratn = 30, split.ratd = 100, split.expiry_round = 123456, min_pay = 10000,
      split.max_fee = 5000000\<rparr>"


text \<open>
  Calls of \<^verbatim>\<open>inject\<close> on small programs, for the runs below.
\<close>

definition sample_call :: inject_args where
  "sample_call =
     \<lparr>orig = [1, 32, 5, 6, 38] @ replicate 32 7 @ [1, 6],
      offsets = [2, 5, 37],
      vals = [IntV 300, StrV zero_address, StrV ''AgI=''],
      values_types = [IntType, StrType ''address'', StrType ''base64'']\<rparr>"

definition past_end_call :: inject_args where
  "past_end_call = \<lparr>orig = [1, 32], offsets = [2], vals = [IntV 5], values_types = [IntType]\<rparr>"

definition overlap_call :: inject_args where
  "overlap_call =
     \<lparr>orig = [9, 9], offsets = [0, 0], vals = [IntV 1, IntV 2], values_types = [IntType, IntType]\<rparr>"



definition small_int_call :: inject_args where
  "small_int_call = \<lparr>orig = [0], offsets = [0], vals = [IntV 5], values_types = [IntType]\<rparr>"

definition uniform_call :: inject_args where
  "uniform_call =
     \<lparr>orig = [2, 2, 2, 2], offsets = [0], vals = [StrV ''AgI=''],
      values_types = [StrType ''base64'']\<rparr>"





section \<open>Properties of the varint encoding\<close>

lemma and255: "(x::int) AND 255 = x mod 256"
proof -
  have "x AND 255 = x AND mask 8" by (simp add: mask_eq_exp_minus_1)
  also have "\<dots> = take_bit 8 x" by (simp add: take_bit_eq_mask)
  also have "\<dots> = x mod 256" by (simp add: take_bit_eq_mod)
  finally show ?thesis .
qed

lemma and127: "(y::int) AND 127 = y mod 128"
proof -
  have "y AND 127 = y AND mask 7" by (simp add: mask_eq_exp_minus_1)
  also have "\<dots> = take_bit 7 y" by (simp add: take_bit_eq_mask)
  also have "\<dots> = y mod 128" by (simp add: take_bit_eq_mod)
  finally show ?thesis .
qed

lemma or128: "(y::int) OR 128 = y + (if odd (y div 128) then 0 else 128)"
proof -
  have "y OR 128 = set_bit 7 y" by (simp add: set_bit_eq_or)
  also have "\<dots> = y + of_bool (\<not> bit y 7) * 2 ^ 7" by (rule set_bit_eq)
  also have "\<dots> = y + (if odd (y div 128) then 0 else 128)"
    by (simp add: bit_iff_odd)
  finally show ?thesis .
qed

lemma mod256_split: "(x::int) mod 256 = x mod 128 + (if odd (x div 128) then 128 else 0)"
proof -
  have "x mod 256 = x mod (128 * 2)" by simp
  also have "\<dots> = 128 * (x div 128 mod 2) + x mod 128"
    by (rule zmod_zmult2_eq) simp
  finally show ?thesis by (auto simp: odd_iff_mod_2_eq_one)
qed

lemma odd_mod256_div128: "odd ((x mod 256) div 128) = odd ((x::int) div 128)"
proof (cases "odd (x div 128)")
  case True
  have "(x mod 128 + 128) div 128 = 1"
    by (simp add: div_add_self2)
  with True show ?thesis by (simp add: mod256_split)
next
  case False
  then show ?thesis by (simp add: mod256_split)
qed

lemma continuation_byte: "((x::int) AND 0xFF) OR 0x80 = 128 + x mod 128"
  unfolding and255 or128 odd_mod256_div128 by (simp add: mod256_split)

lemma put_uvarint_loop_append:
  "put_uvarint_loop buf x i =
     (case put_uvarint_loop [] x 0 of (b, x', j) \<Rightarrow> (buf @ b, x', i + j))"
proof (induction "nat x" arbitrary: x buf i rule: less_induct)
  case less
  show ?case
  proof (cases "x \<ge> 0x80")
    case True
    let ?e = "(x AND 0xFF) OR 0x80" and ?y = "drop_bit 7 x"
    have dec: "nat ?y < nat x"
      using True by (simp add: drop_bit_eq_div)
    have a: "put_uvarint_loop buf x i = put_uvarint_loop (buf @ [?e]) ?y (i + 1)"
      using True by (subst put_uvarint_loop.simps) simp
    have b: "put_uvarint_loop [] x 0 = put_uvarint_loop [?e] ?y 1"
      using True by (subst put_uvarint_loop.simps) simp
    show ?thesis
      unfolding a b
      by (subst less [OF dec, of "buf @ [?e]"], subst less [OF dec, of "[?e]"])
         (simp split: prod.splits)
  next
    case False
    then show ?thesis by (simp add: put_uvarint_loop.simps)
  qed
qed

lemma put_uvarint_loop_count:
  "put_uvarint_loop buf x i = (b, x', j) \<Longrightarrow> i = length buf \<Longrightarrow> j = length b"
proof (induction buf x i rule: put_uvarint_loop.induct)
  case (1 buf x i)
  show ?case
  proof (cases "x \<ge> 0x80")
    case True
    with "1.prems" have
      "put_uvarint_loop (buf @ [(x AND 0xFF) OR 0x80]) (drop_bit 7 x) (i + 1) = (b, x', j)"
      by (subst (asm) put_uvarint_loop.simps) simp
    with "1.IH" [OF True] "1.prems"(2) show ?thesis by simp
  next
    case False
    with "1.prems" show ?thesis by (auto simp add: put_uvarint_loop.simps)
  qed
qed

lemma put_uvarint_append:
  "put_uvarint buf x = (buf @ uvarint_ints x, length (uvarint_ints x))"
proof -
  obtain b x' j where l: "put_uvarint_loop [] x 0 = (b, x', j)"
    by (cases "put_uvarint_loop [] x 0") auto
  have j: "j = length b"
    using put_uvarint_loop_count [OF l] by simp
  show ?thesis
    unfolding uvarint_ints_def put_uvarint_def
    by (subst put_uvarint_loop_append) (simp add: l j)
qed

lemma uvarint_ints_rec:
  "uvarint_ints x =
     (if x \<ge> 0x80 then (128 + x mod 128) # uvarint_ints (x div 128) else [x mod 256])"
proof (cases "x \<ge> 0x80")
  case True
  have "put_uvarint_loop [] x 0 =
      put_uvarint_loop [(x AND 0xFF) OR 0x80] (drop_bit 7 x) 1"
    using True by (subst put_uvarint_loop.simps) simp
  then have "uvarint_ints x = ((x AND 0xFF) OR 0x80) # uvarint_ints (drop_bit 7 x)"
    unfolding uvarint_ints_def put_uvarint_def
    by (subst (asm) (2) put_uvarint_loop_append) (simp split: prod.splits)
  with True show ?thesis
    by (simp add: continuation_byte drop_bit_eq_div)
next
  case False
  then show ?thesis
    by (simp add: uvarint_ints_def put_uvarint_def put_uvarint_loop.simps and255)
qed

lemma uvarint_ints_range: "list_all (\<lambda>e. 0 \<le> e \<and> e < 256) (uvarint_ints x)"
proof (induction "nat x" arbitrary: x rule: less_induct)
  case less
  show ?case
  proof (cases "x \<ge> 0x80")
    case True
    then have "nat (x div 128) < nat x" by simp
    from less [OF this] True show ?thesis
      by (subst uvarint_ints_rec) simp
  next
    case False
    then show ?thesis by (subst uvarint_ints_rec) simp
  qed
qed

lemma uvarint_ints_nonempty: "uvarint_ints x \<noteq> []"
  by (subst uvarint_ints_rec) simp

lemma py_bytes_uvarint: "py_bytes (uvarint_ints x) = Inr (uvarint_bytes x)"
  by (simp add: py_bytes_def uvarint_ints_range uvarint_bytes_def)

lemma length_uvarint_bytes: "length (uvarint_bytes x) = length (uvarint_ints x)"
  by (simp add: uvarint_bytes_def)

lemma uvarint_bytes_nonempty: "uvarint_bytes x \<noteq> []"
  by (simp add: uvarint_bytes_def uvarint_ints_nonempty)

lemma byte_low:
  "0 \<le> e \<Longrightarrow> e < 128 \<Longrightarrow>
     (word_of_int e :: byte) < 0x80 \<and> uint (word_of_int e :: byte) = e"
  by (simp add: word_less_def uint_word_of_int take_bit_eq_mod)

lemma byte_high:
  assumes "0 \<le> m" "m < 128"
  shows "\<not> (word_of_int (128 + m) :: byte) < 0x80"
    and "uint ((word_of_int (128 + m) :: byte) AND 0x7F) = m"
proof -
  have "uint (word_of_int (128 + m) :: byte) = (128 + m) mod 2 ^ LENGTH(8)"
    by (rule uint_word_of_int)
  then have u: "uint (word_of_int (128 + m) :: byte) = 128 + m"
    using assms by simp
  show "\<not> (word_of_int (128 + m) :: byte) < 0x80"
    unfolding word_less_def u using assms by simp
  have "uint ((word_of_int (128 + m) :: byte) AND 0x7F) = (128 + m) AND 127"
    unfolding uint_and u by simp
  also have "\<dots> = m" using assms by (simp add: and127)
  finally show "uint ((word_of_int (128 + m) :: byte) AND 0x7F) = m" .
qed

lemma uvarint_decode_encode:
  "0 \<le> x \<Longrightarrow> uvarint_decode (uvarint_bytes x @ rest) = Some (x, rest)"
  unfolding uvarint_bytes_def
proof (induction "nat x" arbitrary: x rule: less_induct)
  case less
  show ?case
  proof (cases "x \<ge> 0x80")
    case True
    then have d: "nat (x div 128) < nat x" and n: "0 \<le> x div 128" by simp_all
    have m: "0 \<le> x mod 128" "x mod 128 < 128" by simp_all
    show ?thesis
      using True less(1) [OF d n] byte_high [OF m]
      by (subst uvarint_ints_rec) simp
  next
    case False
    with less(2) have "0 \<le> x" "x < 128" by simp_all
    from byte_low [OF this] False \<open>0 \<le> x\<close> show ?thesis
      by (subst uvarint_ints_rec) simp
  qed
qed


section \<open>The loop of \<^verbatim>\<open>inject\<close> as a recursion over the placeholders\<close>

lemma update_offsets_shift: "update_offsets d offs = map (\<lambda>off. off + shift_of d) offs"
  by (simp add: update_offsets_def shift_of_def)

lemma inject_body_eq:
  "inject_body X i (res, a) =
     (case encode_placeholder X (values_types a ! i) (vals a ! i) of
        Inl e \<Rightarrow> Inl e
      | Inr (bs, dec_len) \<Rightarrow>
          Inr (replace res bs (offsets a ! i) (int (reserved_width (values_types a ! i))),
               a\<lparr>offsets := map (\<lambda>off. off + shift_of dec_len) (offsets a)\<rparr>))"
  by (simp add: inject_body_def encode_placeholder_def reserved_width_def Let_def
      put_uvarint_append py_bytes_uvarint length_uvarint_bytes update_offsets_shift
      split: pyval.splits sum.splits)

lemma inject_loop_patch_all:
  assumes "length offs0 = n" "length (vals a) = n" "length (values_types a) = n"
    and "k \<le> n" "offsets a = map (\<lambda>off. off + s) offs0"
  shows "inject_loop X [k..<n] (res, a) =
     (case patch_all X (drop k (zip offs0 (zip (values_types a) (vals a)))) s res of
        (r, s') \<Rightarrow> (r, a\<lparr>offsets := map (\<lambda>off. off + s') offs0\<rparr>))"
  using assms
proof (induction "n - k" arbitrary: k res a s)
  case 0
  then show ?case by simp
next
  case (Suc m)
  then have k: "k < n" by simp
  let ?ps = "zip offs0 (zip (values_types a) (vals a))"
  have len: "length ?ps = n" using Suc.prems by simp
  have d: "drop k ?ps = (offs0 ! k, values_types a ! k, vals a ! k) # drop (Suc k) ?ps"
    using k len Suc.prems by (simp add: Cons_nth_drop_Suc [symmetric])
  have u: "[k..<n] = k # [Suc k..<n]" using k by (simp add: upt_conv_Cons)
  have o: "offsets a ! k = offs0 ! k + s" using Suc.prems k by simp
  show ?case
  proof (cases "encode_placeholder X (values_types a ! k) (vals a ! k)")
    case (Inl e)
    then show ?thesis
      using Suc.prems by (simp add: u d inject_body_eq)
  next
    case (Inr p)
    obtain bs dec_len where p: "p = (bs, dec_len)" by (cases p)
    let ?a' = "a\<lparr>offsets := map (\<lambda>off. off + shift_of dec_len) (offsets a)\<rparr>"
    have m: "m = n - Suc k" using Suc.hyps(2) by simp
    have a': "offsets ?a' = map (\<lambda>off. off + (s + shift_of dec_len)) offs0"
      using Suc.prems by simp
    have ih: "inject_loop X [Suc k..<n]
        (replace res bs (offsets a ! k) (int (reserved_width (values_types a ! k))), ?a') =
      (case patch_all X (drop (Suc k) (zip offs0 (zip (values_types ?a') (vals ?a'))))
              (s + shift_of dec_len)
              (replace res bs (offsets a ! k) (int (reserved_width (values_types a ! k)))) of
         (r, s') \<Rightarrow> (r, ?a'\<lparr>offsets := map (\<lambda>off. off + s') offs0\<rparr>))"
      using Suc.prems k by (intro Suc.hyps(1) [OF m]) simp_all
    show ?thesis
      using Inr p ih by (simp add: u d inject_body_eq o)
  qed
qed

lemma inject_eq_patch_all:
  "inject X a =
     (if length (offsets a) = length (vals a) \<and> length (vals a) = length (values_types a)
      then (case patch_all X (placeholders a) 0 (orig a) of
              (r, s) \<Rightarrow> (r, a\<lparr>offsets := map (\<lambda>off. off + s) (offsets a)\<rparr>))
      else (Inl AssertionError, a))"
proof (cases "length (offsets a) = length (vals a) \<and> length (vals a) = length (values_types a)")
  case True
  have "inject_loop X [0..<length (offsets a)] (orig a, a) =
     (case patch_all X (drop 0 (zip (offsets a) (zip (values_types a) (vals a)))) 0 (orig a) of
        (r, s') \<Rightarrow> (r, a\<lparr>offsets := map (\<lambda>off. off + s') (offsets a)\<rparr>))"
    using True by (intro inject_loop_patch_all) simp_all
  with True show ?thesis by (simp add: inject_def placeholders_def)
next
  case False
  then show ?thesis by (auto simp: inject_def)
qed

lemma replace_in_range:
  assumes "0 \<le> p" "0 \<le> w" "p + w \<le> int (length arr)"
  shows "replace arr bs p w = take (nat p) arr @ bs @ drop (nat (p + w)) arr"
    and "int (length (replace arr bs p w)) = int (length arr) + (int (length bs) - w)"
  using assms by (auto simp: replace_def slice_bound_def)

lemma well_formed_encode:
  assumes "well_formed X prog (off, ty, v)"
  shows "\<exists>bs d. encode_placeholder X ty v = Inr (bs, d)
     \<and> encoded X ty v = bs
     \<and> length_delta X ty v = int (length bs) - int (reserved_width ty)
     \<and> (ty \<noteq> StrType ''base64'' \<longrightarrow> shift_of d = int (length bs) - int (reserved_width ty))
     \<and> 0 \<le> shift_of d"
proof -
  have ne: "\<And>x. \<exists>n. length (uvarint_bytes x) = Suc n"
    using uvarint_bytes_nonempty by (metis length_0_conv not0_implies_Suc)
  consider (i) "ty = IntType" | (a) "ty = StrType ''address''" | (b) "ty = StrType ''base64''"
    using assms by (auto simp: well_formed_def split: if_splits)
  then show ?thesis
  proof cases
    case i
    with assms obtain x where "v = IntV x"
      by (auto simp: well_formed_def split: pyval.splits)
    with i ne [of x] show ?thesis
      by (auto simp add: encode_placeholder_def encoded_def length_delta_def reserved_width_def shift_of_def)
  next
    case a
    with assms obtain bs where "decode_address X v = Inr bs" "length bs = 32"
      by (auto simp: well_formed_def split: sum.splits)
    with a show ?thesis
      by (simp add: encode_placeholder_def encoded_def length_delta_def reserved_width_def shift_of_def)
  next
    case b
    with assms obtain blob where "b64decode X v = Inr blob"
      by (auto simp: well_formed_def split: sum.splits)
    with b ne [of "int (length blob)"] show ?thesis
      by (auto simp add: encode_placeholder_def encoded_def length_delta_def reserved_width_def shift_of_def)
  qed
qed

lemma well_formed_range:
  "well_formed X prog (off, ty, v) \<Longrightarrow> 0 \<le> off \<and> off + int (reserved_width ty) \<le> int (length prog)"
  by (simp add: well_formed_def)

lemma patch_all_length:
  assumes "list_all (well_formed X prog) ps" "list_all not_base64 (butlast ps)"
    and "0 \<le> s" "int (length res) = int (length prog) + s"
  shows "\<exists>out s'. patch_all X ps s res = (Inr out, s')
     \<and> int (length out) = int (length res) + sum_deltas X ps"
  using assms
proof (induction ps arbitrary: s res)
  case Nil
  then show ?case by (simp add: sum_deltas_def)
next
  case (Cons p ps)
  obtain off ty v where p: "p = (off, ty, v)" by (cases p)
  from Cons.prems(1) p have wf: "well_formed X prog (off, ty, v)" by simp
  from well_formed_encode [OF wf] obtain bs d where
    e: "encode_placeholder X ty v = Inr (bs, d)"
    and dl: "length_delta X ty v = int (length bs) - int (reserved_width ty)"
    and sh: "ty \<noteq> StrType ''base64'' \<longrightarrow> shift_of d = int (length bs) - int (reserved_width ty)"
    and sh0: "0 \<le> shift_of d"
    by blast
  from well_formed_range [OF wf] have r: "0 \<le> off" "off + int (reserved_width ty) \<le> int (length prog)"
    by simp_all
  let ?res' = "replace res bs (off + s) (int (reserved_width ty))"
  have len': "int (length ?res') = int (length res) + (int (length bs) - int (reserved_width ty))"
    using r Cons.prems(3,4) by (intro replace_in_range(2)) simp_all
  show ?case
  proof (cases "ps = []")
    case True
    then show ?thesis
      using e dl len' by (simp add: p sum_deltas_def)
  next
    case False
    with Cons.prems(2) have "not_base64 p" and rest: "list_all not_base64 (butlast ps)"
      by simp_all
    then have nb: "ty \<noteq> StrType ''base64''"
      by (simp add: not_base64_def p)
    from sh nb have sh': "shift_of d = int (length bs) - int (reserved_width ty)" by simp
    have "\<exists>out s'. patch_all X ps (s + shift_of d) ?res' = (Inr out, s')
       \<and> int (length out) = int (length ?res') + sum_deltas X ps"
      using Cons.prems(1) rest sh0 Cons.prems(3,4) len' sh'
      by (intro Cons.IH) simp_all
    then show ?thesis
      using e dl len' by (auto simp: p sum_deltas_def)
  qed
qed

lemma replace_prefix:
  assumes "0 \<le> c" "c \<le> off" "0 \<le> w" "off + w \<le> int (length prog)"
  shows "replace (pre @ drop (nat c) prog) bs (off + (int (length pre) - c)) w =
      (pre @ take (nat (off - c)) (drop (nat c) prog) @ bs) @ drop (nat (off + w)) prog"
    and "int (length (pre @ take (nat (off - c)) (drop (nat c) prog) @ bs)) - (off + w) =
      (int (length pre) - c) + (int (length bs) - w)"
proof -
  have n1: "nat (off + (int (length pre) - c)) = length pre + nat (off - c)"
    using assms by linarith
  have n2: "nat (off + (int (length pre) - c) + w) = length pre + nat (off + w - c)"
    using assms by linarith
  have n3: "nat (off + w - c) + nat c = nat (off + w)"
    using assms by linarith
  have p1: "\<not> off + (int (length pre) - c) < 0" "\<not> off + (int (length pre) - c) + w < 0"
    using assms by linarith+
  show "replace (pre @ drop (nat c) prog) bs (off + (int (length pre) - c)) w =
      (pre @ take (nat (off - c)) (drop (nat c) prog) @ bs) @ drop (nat (off + w)) prog"
    unfolding replace_def slice_bound_def using p1
    by (simp add: n1 n2 n3)
  have "nat (off - c) \<le> length prog - nat c"
    using assms by linarith
  then show "int (length (pre @ take (nat (off - c)) (drop (nat c) prog) @ bs)) - (off + w) =
      (int (length pre) - c) + (int (length bs) - w)"
    using assms by (simp add: min_def)
qed

lemma patch_all_splice:
  assumes "list_all (well_formed X prog) ps" "list_all not_base64 (butlast ps)"
    and "sorted_wrt before ps" "0 \<le> c" "list_all (\<lambda>p. c \<le> fst p) ps"
    and "res = pre @ drop (nat c) prog" "s = int (length pre) - c"
  shows "fst (patch_all X ps s res) = Inr (pre @ splice prog c (regions X ps))"
  using assms
proof (induction ps arbitrary: c pre s res)
  case Nil
  then show ?case by (simp add: regions_def)
next
  case (Cons p ps)
  obtain off ty v where p: "p = (off, ty, v)" by (cases p)
  from Cons.prems(1) p have wf: "well_formed X prog (off, ty, v)" by simp
  from well_formed_encode [OF wf] obtain bs d where
    e: "encode_placeholder X ty v = Inr (bs, d)"
    and en: "encoded X ty v = bs"
    and sh: "ty \<noteq> StrType ''base64'' \<longrightarrow> shift_of d = int (length bs) - int (reserved_width ty)"
    by blast
  let ?w = "int (reserved_width ty)"
  from well_formed_range [OF wf] have r: "off + ?w \<le> int (length prog)" by simp
  from Cons.prems(5) p have co: "c \<le> off" by simp
  let ?pre' = "pre @ take (nat (off - c)) (drop (nat c) prog) @ bs"
  have rp: "replace res bs (off + s) ?w = ?pre' @ drop (nat (off + ?w)) prog"
    unfolding Cons.prems(6,7) using Cons.prems(4) co r by (intro replace_prefix(1)) simp_all
  have ln: "int (length ?pre') - (off + ?w) = s + (int (length bs) - ?w)"
    unfolding Cons.prems(7) using Cons.prems(4) co r by (intro replace_prefix(2)) simp_all
  show ?case
  proof (cases "ps = []")
    case True
    then show ?thesis
      using e en rp by (simp add: p regions_def)
  next
    case False
    with Cons.prems(2) have "not_base64 p" and rest: "list_all not_base64 (butlast ps)"
      by simp_all
    then have nb: "ty \<noteq> StrType ''base64''"
      by (simp add: not_base64_def p)
    from sh nb have sh': "shift_of d = int (length bs) - ?w" by simp
    have lower: "list_all (\<lambda>q. off + ?w \<le> fst q) ps"
      using Cons.prems(3) by (simp add: p before_def list_all_iff)
    have "fst (patch_all X ps (s + shift_of d) (replace res bs (off + s) ?w)) =
        Inr (?pre' @ splice prog (off + ?w) (regions X ps))"
      using Cons.prems(1,3) rest lower Cons.prems(4) co rp ln sh'
      by (intro Cons.IH) simp_all
    then show ?thesis
      using e en by (simp add: p regions_def)
  qed
qed

lemma patch_all_success_shift:
  "patch_all X ps s res = (Inr out, s') \<Longrightarrow> s' = s + accumulated_shift X ps"
proof (induction ps arbitrary: s res)
  case Nil
  then show ?case by (simp add: accumulated_shift_def)
next
  case (Cons p ps)
  obtain off ty v where p: "p = (off, ty, v)" by (cases p)
  show ?case
  proof (cases "encode_placeholder X ty v")
    case (Inl e)
    with Cons.prems show ?thesis by (simp add: p)
  next
    case (Inr q)
    obtain bs d where q: "q = (bs, d)" by (cases q)
    from Cons.prems Inr q have
      "patch_all X ps (s + shift_of d) (replace res bs (off + s) (int (reserved_width ty))) = (Inr out, s')"
      by (simp add: p)
    from Cons.IH [OF this] Inr q show ?thesis
      by (simp add: p accumulated_shift_def placeholder_shift_def)
  qed
qed

lemma shift_of_nonneg: "0 \<le> shift_of d"
  by (simp add: shift_of_def)

lemma accumulated_shift_nonneg: "0 \<le> accumulated_shift X ps"
  unfolding accumulated_shift_def
  by (rule sum_list_nonneg) (auto simp: placeholder_shift_def shift_of_nonneg split: sum.splits)



lemma well_formed_decodes_back:
  assumes "well_formed X prog p"
  shows "decodes_back X p"
proof -
  obtain off ty v where p: "p = (off, ty, v)" by (cases p)
  consider (i) "ty = IntType" | (a) "ty = StrType ''address''" | (b) "ty = StrType ''base64''"
    using assms by (auto simp: p well_formed_def split: if_splits)
  then show ?thesis
  proof cases
    case i
    with assms obtain x where x: "v = IntV x" "0 \<le> x"
      by (auto simp: p well_formed_def split: pyval.splits)
    from uvarint_decode_encode [OF x(2), of "[]"] i x(1) show ?thesis
      by (simp add: p decodes_back_def decode_region_def encoded_def encode_placeholder_def
          logical_value_def)
  next
    case a
    with assms obtain bs where "decode_address X v = Inr bs" "length bs = 32"
      by (auto simp: p well_formed_def split: sum.splits)
    with a show ?thesis
      by (simp add: p decodes_back_def decode_region_def encoded_def encode_placeholder_def
          logical_value_def)
  next
    case b
    with assms obtain blob where "b64decode X v = Inr blob"
      by (auto simp: p well_formed_def split: sum.splits)
    with b uvarint_decode_encode [of "int (length blob)" blob] show ?thesis
      by (simp add: p decodes_back_def decode_region_def encoded_def encode_placeholder_def
          logical_value_def)
  qed
qed


section \<open>The claims\<close>

text \<open>
  C1. A run of the code on a call whose first placeholder is a base64 blob of one byte:
  its encoding has the reserved width 2, so it exceeds the reserved width by 0 bytes. The
  code still adds \<^verbatim>\<open>dec_len - 1\<close> = 1 to every offset, and the int placeholder that
  follows, declared at offset 2, is written at offset 3.
\<close>

theorem inject_shift_after_base64:
  "inject sample_collaborators
     \<lparr>orig = [0, 1, 2, 3, 4, 5], offsets = [0, 2], vals = [StrV ''AA=='', IntV 9],
      values_types = [StrType ''base64'', IntType]\<rparr>
   = (Inr [1, 0, 2, 9, 4, 5],
      \<lparr>orig = [0, 1, 2, 3, 4, 5], offsets = [1, 3], vals = [StrV ''AA=='', IntV 9],
       values_types = [StrType ''base64'', IntType]\<rparr>)"
  by code_simp

text \<open>
  C2, as stated, fails on calls that the code accepts. A placeholder at the end of a
  2-byte program is appended, so the result is one byte longer than the original length
  plus the delta 0. Two int placeholders at the same offset overwrite each other, so the
  region of the first does not hold its value.
\<close>

theorem inject_length_counterexample:
  "fst (inject sample_collaborators past_end_call) = Inr [1, 32, 5]
   \<and> int (length [1, 32, 5 :: byte])
       \<noteq> int (length (orig past_end_call))
           + sum_deltas sample_collaborators (placeholders past_end_call)
   \<and> fst (inject sample_collaborators overlap_call) = Inr [2, 9]
   \<and> decode_region IntType (take 1 (drop 0 [2, 9])) \<noteq> Some (vals overlap_call ! 0)"
  by code_simp

text \<open>
  C2, as amended. For a call with matching counts whose placeholders are all well formed
  for the original program (region inside the program, a known kind, a value of that
  kind), and where no base64 placeholder stands before another placeholder, \<^verbatim>\<open>inject\<close>
  returns a program whose length is the original length plus the sum of the length deltas,
  and each encoding decodes back to the logical value of its placeholder. When the regions
  are moreover listed in ascending order without overlap, the returned program is the
  original one with each region replaced by the encoding of its value and every other byte
  kept.
\<close>

theorem inject_patched_program:
  assumes "length (offsets a) = length (vals a)" "length (vals a) = length (values_types a)"
    and "list_all (well_formed X (orig a)) (placeholders a)"
    and "list_all not_base64 (butlast (placeholders a))"
  shows "\<exists>out a'. inject X a = (Inr out, a')
      \<and> int (length out) = int (length (orig a)) + sum_deltas X (placeholders a)
      \<and> list_all (decodes_back X) (placeholders a)
      \<and> (sorted_wrt before (placeholders a)
           \<longrightarrow> out = splice (orig a) 0 (regions X (placeholders a)))"
proof -
  let ?ps = "placeholders a"
  from patch_all_length [OF assms(3,4), of 0 "orig a"] obtain out s' where
    pa: "patch_all X ?ps 0 (orig a) = (Inr out, s')"
    and len: "int (length out) = int (length (orig a)) + sum_deltas X ?ps"
    by auto
  have inj: "inject X a = (Inr out, a\<lparr>offsets := map (\<lambda>off. off + s') (offsets a)\<rparr>)"
    using assms(1,2) pa by (simp add: inject_eq_patch_all)
  have dec: "list_all (decodes_back X) ?ps"
    using assms(3) by (auto simp: list_all_iff intro: well_formed_decodes_back)
  have spl: "out = splice (orig a) 0 (regions X ?ps)" if "sorted_wrt before ?ps"
  proof -
    have low: "list_all (\<lambda>p. 0 \<le> fst p) ?ps"
      using assms(3) by (auto simp: list_all_iff well_formed_def)
    have "fst (patch_all X ?ps 0 (orig a)) = Inr ([] @ splice (orig a) 0 (regions X ?ps))"
      using assms(3,4) that low by (intro patch_all_splice) simp_all
    with pa show ?thesis by simp
  qed
  from inj len dec spl show ?thesis by blast
qed

text \<open>
  The theorem of C2 at a call with one placeholder of each kind: an int that needs two
  bytes at offset 2, the zero address at offset 5 and a 2-byte blob at offset 37 of a
  39-byte program.
\<close>

theorem inject_patched_program_witness:
  "\<exists>out a'. inject sample_collaborators sample_call = (Inr out, a')
     \<and> int (length out) = 41
     \<and> list_all (decodes_back sample_collaborators) (placeholders sample_call)
     \<and> out = [1, 32, 172, 2, 6, 38] @ replicate 32 0 @ [2, 2, 2]"
proof -
  have h1: "length (offsets sample_call) = length (vals sample_call)"
    and h2: "length (vals sample_call) = length (values_types sample_call)"
    by (simp_all add: sample_call_def)
  have h3: "list_all (well_formed sample_collaborators (orig sample_call)) (placeholders sample_call)"
    by code_simp
  have h4: "list_all not_base64 (butlast (placeholders sample_call))"
    by code_simp
  have s: "sorted_wrt before (placeholders sample_call)"
    by code_simp
  have d: "int (length (orig sample_call)) + sum_deltas sample_collaborators (placeholders sample_call) = 41"
    by code_simp
  have e: "splice (orig sample_call) 0 (regions sample_collaborators (placeholders sample_call))
      = [1, 32, 172, 2, 6, 38] @ replicate 32 0 @ [2, 2, 2]"
    by code_simp
  from inject_patched_program [OF h1 h2 h3 h4] s d e show ?thesis
    by auto
qed

text \<open>
  C3. A run of the code at \<^verbatim>\<open>ratn = 30\<close>, \<^verbatim>\<open>ratd = 100\<close>, \<^verbatim>\<open>amount = 100\<close>,
  \<^verbatim>\<open>precise = True\<close>: the first amount is 30, and the second is the whole amount 100,
  since the exact branch subtracts \<^verbatim>\<open>amt_2\<close>, which is still 0, where the approximate
  branch subtracts \<^verbatim>\<open>amt_1\<close>.
\<close>

theorem split_exact_second_amount:
  "get_send_funds_transaction round_share sample_split 100 True = Inr (30, 100)"
proof -
  have "gcd (30::int) 100 = 10" by code_simp
  then show ?thesis
    by (simp add: get_send_funds_transaction_def sample_split_def Let_def)
qed

text \<open>
  C4. For every unsigned integer \<open>x\<close>, \<^verbatim>\<open>put_uvarint\<close> appends the same ints whatever
  the buffer holds and returns their number, \<^verbatim>\<open>bytes\<close> accepts them, the reference
  decoder reads \<open>x\<close> back from them with nothing left over, and 0 is encoded as the
  single byte 0.
\<close>

theorem put_uvarint_roundtrip:
  "0 \<le> x \<Longrightarrow>
     put_uvarint buf x = (buf @ fst (put_uvarint [] x), length (fst (put_uvarint [] x)))
     \<and> (\<exists>bs. py_bytes (fst (put_uvarint [] x)) = Inr bs \<and> uvarint_decode bs = Some (x, []))
     \<and> put_uvarint [] 0 = ([0], 1)"
proof -
  assume x: "0 \<le> x"
  have a: "put_uvarint buf x = (buf @ fst (put_uvarint [] x), length (fst (put_uvarint [] x)))"
    by (simp add: put_uvarint_append [of buf] uvarint_ints_def)
  have "uvarint_decode (uvarint_bytes x @ []) = Some (x, [])"
    using x by (rule uvarint_decode_encode)
  then have b: "\<exists>bs. py_bytes (fst (put_uvarint [] x)) = Inr bs \<and> uvarint_decode bs = Some (x, [])"
    using py_bytes_uvarint [of x] by (simp add: uvarint_ints_def)
  have c: "put_uvarint [] 0 = ([0], 1)"
    by (simp add: put_uvarint_def put_uvarint_loop.simps)
  from a b c show ?thesis by blast
qed

theorem put_uvarint_roundtrip_witness:
  "put_uvarint [7] 300 = ([7, 172, 2], 2)
   \<and> py_bytes (fst (put_uvarint [] 300)) = Inr [172, 2]
   \<and> uvarint_decode [172, 2] = Some (300, [])"
proof -
  have h: "(0::int) \<le> 300" by simp
  have e: "put_uvarint [] 300 = ([172, 2], 2)"
    by (simp add: put_uvarint_def put_uvarint_loop.simps drop_bit_eq_div and255 or128)
  from put_uvarint_roundtrip [OF h, of "[7]"] show ?thesis
    by (auto simp: e py_bytes_def)
qed

text \<open>
  C5, as stated, fails when \<^verbatim>\<open>ratd\<close> is 0: with \<^verbatim>\<open>ratn = 1\<close>, \<^verbatim>\<open>ratd = 0\<close>,
  \<^verbatim>\<open>amount = 5\<close> and \<^verbatim>\<open>precise = True\<close>, the reduced denominator is 0, of which 5 is
  not a multiple, and the code raises ZeroDivisionError at \<^verbatim>\<open>amount % ratd\<close>, not
  NotDivisibleError.
\<close>

theorem not_divisible_counterexample:
  "get_send_funds_transaction (\<lambda>a d n. (2 * a * n + d) div (2 * d))
       (sample_split\<lparr>split.ratn := 1, split.ratd := 0\<rparr>) 5 True
     = Inl ZeroDivisionError
   \<and> \<not> (split.ratd (sample_split\<lparr>split.ratn := 1, split.ratd := 0\<rparr>)
          div gcd (split.ratn (sample_split\<lparr>split.ratn := 1, split.ratd := 0\<rparr>))
                  (split.ratd (sample_split\<lparr>split.ratn := 1, split.ratd := 0\<rparr>))) dvd (5::int)"
  by (simp add: get_send_funds_transaction_def sample_split_def Let_def)

text \<open>
  C5, as amended. When the denominator \<^verbatim>\<open>ratd\<close> is not 0,
  \<^verbatim>\<open>get_send_funds_transaction\<close> raises NotDivisibleError if and only if \<^verbatim>\<open>precise\<close> is
  set and the amount is not a multiple of the denominator reduced by the gcd. When
  \<^verbatim>\<open>ratd\<close> is 0 it raises ZeroDivisionError, whatever \<^verbatim>\<open>precise\<close> is.
\<close>

theorem not_divisible_iff:
  "(split.ratd s \<noteq> 0 \<longrightarrow>
      (get_send_funds_transaction round_share s amount' precise = Inl NotDivisibleError)
        = (precise \<and> \<not> (split.ratd s div gcd (split.ratn s) (split.ratd s)) dvd amount'))
   \<and> (split.ratd s = 0 \<longrightarrow>
        get_send_funds_transaction round_share s amount' precise = Inl ZeroDivisionError)"
proof (intro conjI impI)
  assume d: "split.ratd s \<noteq> 0"
  let ?g = "gcd (split.ratn s) (split.ratd s)"
  have g: "?g \<noteq> 0" using d by simp
  have "split.ratd s = ?g * (split.ratd s div ?g)" by simp
  with d have rd: "split.ratd s div ?g \<noteq> 0" by (metis mult_zero_right)
  show "(get_send_funds_transaction round_share s amount' precise = Inl NotDivisibleError)
        = (precise \<and> \<not> (split.ratd s div ?g) dvd amount')"
    using g rd by (auto simp: get_send_funds_transaction_def Let_def mod_eq_0_iff_dvd)
next
  assume "split.ratd s = 0"
  then show "get_send_funds_transaction round_share s amount' precise = Inl ZeroDivisionError"
    by (simp add: get_send_funds_transaction_def Let_def)
qed

text \<open>
  The theorem of C5 on the ratio 30:100 with the amount 101 (NotDivisibleError in exact
  mode, a pair of amounts in approximate mode, where the float rounding is replaced by an
  exact one), and on a ratio with denominator 0.
\<close>

theorem not_divisible_iff_witness:
  "get_send_funds_transaction (\<lambda>a d n. (2 * a * n + d) div (2 * d)) sample_split 101 True
     = Inl NotDivisibleError
   \<and> get_send_funds_transaction (\<lambda>a d n. (2 * a * n + d) div (2 * d)) sample_split 101 False
     = Inr (30, 71)
   \<and> get_send_funds_transaction (\<lambda>a d n. (2 * a * n + d) div (2 * d))
        (sample_split\<lparr>split.ratd := 0\<rparr>) 101 True
     = Inl ZeroDivisionError"
proof -
  let ?rs = "\<lambda>a d n :: int. (2 * a * n + d) div (2 * d)"
  have g: "gcd (30::int) 100 = 10" by code_simp
  have d1: "split.ratd sample_split \<noteq> 0" by (simp add: sample_split_def)
  have d0: "split.ratd (sample_split\<lparr>split.ratd := 0\<rparr>) = 0" by simp
  have n: "\<not> (split.ratd sample_split div gcd (split.ratn sample_split) (split.ratd sample_split)) dvd (101::int)"
    by (simp add: sample_split_def g)
  have f: "get_send_funds_transaction ?rs sample_split 101 False = Inr (30, 71)"
    by (simp add: get_send_funds_transaction_def sample_split_def g Let_def)
  from not_divisible_iff [of sample_split ?rs 101 True]
    not_divisible_iff [of "sample_split\<lparr>split.ratd := 0\<rparr>" ?rs 101 True]
    d1 d0 n f
  show ?thesis by simp
qed






text \<open>
  C7. \<^verbatim>\<open>get_program\<close> returns the instance and the world as it received them, so a
  second call on the instance gives the same outcome as the first; the outcome does not
  depend on the state of the random generator; and the lease of a DynamicFee or a
  PeriodicPayment instance is the bytes drawn when \<^verbatim>\<open>__init__\<close> ran, stored in the
  field \<^verbatim>\<open>lease_value\<close>.
\<close>

theorem get_program_deterministic:
  "(case get_program X t w of
      (r1, t1, w1) \<Rightarrow>
        (case get_program X t1 w1 of (r2, t2, w2) \<Rightarrow> r2 = r1 \<and> t2 = t \<and> w2 = w))
   \<and> fst (get_program X t w') = fst (get_program X t w)
   \<and> dynamic_fee.lease_value (fst (DynamicFee_init X rc am fv lv cra w))
       = StrV (b64encode X (stake (lease_length X) (random_bytes w)))
   \<and> periodic_payment.lease_value (fst (PeriodicPayment_init X rc am ww pe fe ti w))
       = BytesV (stake (lease_length X) (random_bytes w))"
  by (simp add: get_program_def DynamicFee_init_def PeriodicPayment_init_def)




text \<open>
  C9. A run of the code in approximate mode at \<^verbatim>\<open>ratn = 98\<close>, \<^verbatim>\<open>ratd = 100\<close> (reduced
  to 49:50) and \<^verbatim>\<open>amount = 3631220688233348\<close>, which is not a multiple of 50. The two
  amounts sum to the amount, but the first, 3558596274468680, is more than 1 unit away
  from the exact share 3558596274468681.04: a hundred times the first amount differs from
  98 times the amount by 104. The float quotient and product each round to 53 bits, and
  the error exceeds one unit. At the ratio 1:3 and the amount 100000000000000001 the first
  amount is 33333333333333332, which is 1.67 below the share. At the ratio 30:100 and the
  amount 101 the same code gives 30 and 71, within one unit of the share 30.3.
\<close>

theorem approximate_split_float:
  "get_send_funds_transaction float_round_share
       (sample_split\<lparr>split.ratn := 98, split.ratd := 100\<rparr>) 3631220688233348 False
     = Inr (3558596274468680, 72624413764668)
   \<and> 3631220688233348 mod (50::int) \<noteq> 0
   \<and> (100::int) < \<bar>3558596274468680 * 100 - 3631220688233348 * 98\<bar>
   \<and> get_send_funds_transaction float_round_share
         (sample_split\<lparr>split.ratn := 1, split.ratd := 3\<rparr>) 100000000000000001 False
       = Inr (33333333333333332, 66666666666666669)
   \<and> (3::int) < \<bar>33333333333333332 * 3 - 100000000000000001 * 1\<bar>
   \<and> get_send_funds_transaction float_round_share sample_split 101 False = Inr (30, 71)"
  by code_simp

text \<open>
  C10, as stated, fails in its last part. A call whose only substitution is the int 5 has
  \<^verbatim>\<open>dec_len = 1\<close>, which is not 0, and leaves the offsets as they were: a second call
  with the same list returns the same bytes. A call that writes a 2-byte blob into a
  program of four equal bytes shifts its offset by 2, and a second call with the shifted
  list still returns the same bytes as the first.
\<close>

theorem second_call_counterexample:
  "encode_placeholder sample_collaborators IntType (IntV 5) = Inr ([5], 1)
   \<and> inject sample_collaborators small_int_call = (Inr [5], small_int_call)
   \<and> fst (inject sample_collaborators (snd (inject sample_collaborators small_int_call)))
       = fst (inject sample_collaborators small_int_call)
   \<and> inject sample_collaborators uniform_call
       = (Inr [2, 2, 2, 2, 2], uniform_call\<lparr>offsets := [2]\<rparr>)
   \<and> fst (inject sample_collaborators (snd (inject sample_collaborators uniform_call)))
       = fst (inject sample_collaborators uniform_call)"
  by code_simp

text \<open>
  C10, as amended. After a call of \<^verbatim>\<open>inject\<close> that returns, \<^verbatim>\<open>orig\<close>, \<^verbatim>\<open>values\<close>
  and \<^verbatim>\<open>values_types\<close> are as they were, and every entry of the \<^verbatim>\<open>offsets\<close> list has
  been increased by the accumulated shift: the sum, over the substitutions, of
  \<^verbatim>\<open>dec_len - 1\<close> where \<^verbatim>\<open>dec_len\<close> is not 0. The shift is never negative. A second call
  that is given the same list object therefore runs as a call with the shifted offsets;
  its result can differ from the first one (it does for \<open>sample_call\<close>), and need not.
\<close>

theorem inject_success_frame:
  assumes "inject X a = (Inr out, a')"
  shows "orig a' = orig a \<and> vals a' = vals a \<and> values_types a' = values_types a
     \<and> offsets a' = map (\<lambda>off. off + accumulated_shift X (placeholders a)) (offsets a)
     \<and> 0 \<le> accumulated_shift X (placeholders a)
     \<and> inject X a' =
         inject X (a\<lparr>offsets := map (\<lambda>off. off + accumulated_shift X (placeholders a)) (offsets a)\<rparr>)
     \<and> fst (inject sample_collaborators (snd (inject sample_collaborators sample_call)))
         \<noteq> fst (inject sample_collaborators sample_call)"
proof -
  have len: "length (offsets a) = length (vals a) \<and> length (vals a) = length (values_types a)"
    using assms by (auto simp: inject_eq_patch_all split: if_splits)
  obtain r s where pa: "patch_all X (placeholders a) 0 (orig a) = (r, s)"
    by (cases "patch_all X (placeholders a) 0 (orig a)")
  with len assms have r: "r = Inr out"
    and a': "a' = a\<lparr>offsets := map (\<lambda>off. off + s) (offsets a)\<rparr>"
    by (simp_all add: inject_eq_patch_all)
  from patch_all_success_shift [OF pa [unfolded r]] have "s = accumulated_shift X (placeholders a)"
    by simp
  moreover have "fst (inject sample_collaborators (snd (inject sample_collaborators sample_call)))
      \<noteq> fst (inject sample_collaborators sample_call)"
    by code_simp
  ultimately show ?thesis
    using a' accumulated_shift_nonneg [of X "placeholders a"] by simp
qed

text \<open>
  The theorem of C10 at the call with one placeholder of each kind: the offsets
  \<^verbatim>\<open>[2, 5, 37]\<close> have become \<^verbatim>\<open>[5, 8, 40]\<close>, the accumulated shift being 3.
\<close>

theorem inject_success_frame_witness:
  "offsets (snd (inject sample_collaborators sample_call)) = [5, 8, 40]
   \<and> orig (snd (inject sample_collaborators sample_call)) = orig sample_call
   \<and> vals (snd (inject sample_collaborators sample_call)) = vals sample_call
   \<and> values_types (snd (inject sample_collaborators sample_call)) = values_types sample_call
   \<and> accumulated_shift sample_collaborators (placeholders sample_call) = 3"
proof -
  have h: "inject sample_collaborators sample_call
      = (Inr ([1, 32, 172, 2, 6, 38] @ replicate 32 0 @ [2, 2, 2]),
         sample_call\<lparr>offsets := [5, 8, 40]\<rparr>)"
    by code_simp
  have s: "accumulated_shift sample_collaborators (placeholders sample_call) = 3"
    by code_simp
  from inject_success_frame [OF h] s show ?thesis
    by (simp add: h)
qed

end
